theory Spec2Isabelle
  imports Complex_Main
begin

section \<open>Platform objects (source/webxr.ts)\<close>

text \<open>
  The controller of \<^verbatim>\<open>source/xrcontroller.ts\<close> talks to host objects whose interfaces
  are declared in \<^verbatim>\<open>source/webxr.ts\<close>. Their data is opaque to the controller: matrices
  and viewports are only passed on, never computed with. A JavaScript \<^verbatim>\<open>number\<close> is
  modelled as a real, a \<^verbatim>\<open>Float32Array\<close> as a list of them. A field of type
  \<^verbatim>\<open>T | undefined\<close> (or \<^verbatim>\<open>T | null\<close>) is a \<open>T option\<close>.
\<close>

type_synonym number = real
type_synonym Float32Array = "number list"

text \<open>Exceptions that a method of the controller can complete with.\<close>

datatype exn =
    TypeError
  | EvalError string
  | DOMException string

text \<open>The settled state of an awaited promise.\<close>

datatype 'a settled = Fulfilled 'a | Rejected exn

text \<open>How a method call completes: it returns, or it throws (an async method rejects).\<close>

datatype completion = Returned | Threw exn

record XRSessionCreationOptions =
  immersive :: "bool option"
  outputContext :: "nat option"

text \<open>
  \<^verbatim>\<open>XRDevice.supportsSession(options): Promise<void>\<close> is the device's own answer; the
  field \<open>device_supportsSession\<close> says how that promise settles for each configuration.
\<close>

record XRDevice =
  deviceId :: nat
  device_supportsSession :: "XRSessionCreationOptions \<Rightarrow> unit settled"

datatype XREye = EyeLeft | EyeRight

record XRView =
  eye :: XREye
  projectionMatrix :: Float32Array

text \<open>\<^verbatim>\<open>XRViewport\<close>: x, y, width, height.\<close>

datatype XRViewport = XRViewport number number number number

record XRDevicePose =
  poseModelMatrix :: Float32Array
  getViewMatrix :: "XRView \<Rightarrow> Float32Array"

datatype WebGLFramebuffer = WebGLFramebuffer nat

record XRWebGLLayer =
  framebuffer :: WebGLFramebuffer
  getViewport :: "XRView \<Rightarrow> XRViewport option"

datatype XRFrameOfReference = XRFrameOfReference nat

text \<open>
  A session object: \<open>sessionId\<close> is its identity, \<open>session_end\<close> how the promise of
  \<^verbatim>\<open>XRSession.end()\<close> settles.
\<close>

record XRSession =
  sessionId :: nat
  baseLayer :: XRWebGLLayer
  session_end :: "unit settled"

record XRFrame =
  views :: "XRView list"
  getDevicePose :: "XRFrameOfReference option \<Rightarrow> XRDevicePose option"

datatype Canvas = Canvas nat
datatype GL = GL nat
datatype Renderer = Renderer nat

text \<open>The only frame callback the controller ever registers: \<^verbatim>\<open>this.onXRFrameCallback\<close>.\<close>

datatype XRFrameRequestCallback = OnXRFrameCallback

section \<open>Render views and the world outside the controller\<close>

text \<open>
  Modelled from the spec: the class \<^verbatim>\<open>RenderView\<close> of \<^verbatim>\<open>./renderview\<close> is not among the
  sources. The spec describes it as a record of projection matrix, view matrix and
  viewport, whose entries are overwritten in place; \<^verbatim>\<open>new RenderView()\<close> takes no
  arguments, so a fresh one has its three fields unset, and \<^verbatim>\<open>set\<close> writes all three.
\<close>

record RenderView =
  rv_projectionMatrix :: "Float32Array option"
  rv_viewMatrix :: "Float32Array option"
  rv_viewport :: "XRViewport option"

definition RenderView_new :: RenderView where
  "RenderView_new =
     \<lparr>rv_projectionMatrix = None, rv_viewMatrix = None, rv_viewport = None\<rparr>"

definition RenderView_set ::
  "Float32Array \<Rightarrow> Float32Array \<Rightarrow> XRViewport option \<Rightarrow> RenderView \<Rightarrow> RenderView" where
  "RenderView_set pm vm vp rv =
     rv\<lparr>rv_projectionMatrix := Some pm, rv_viewMatrix := Some vm, rv_viewport := vp\<rparr>"

text \<open>
  Calls the controller makes on its collaborators, in the order it makes them. A
  render view is named by its address in the heap of render-view objects; the array
  handed to \<^verbatim>\<open>renderer.frame\<close> is recorded as the references it holds at that moment.
\<close>

datatype call =
    RequestAnimationFrame nat XRFrameRequestCallback
  | GetDevicePose "XRFrameOfReference option"
  | BindFramebuffer GL WebGLFramebuffer
  | NewRenderView nat
  | RenderViewSet nat
  | RendererFrame Renderer number "nat option list"
  | ConsoleWarn string
  | SessionEnd nat

text \<open>
  The world: \<open>heap\<close> holds every \<^verbatim>\<open>RenderView\<close> object allocated so far (an address is an
  index into it), \<open>frameCallbacks\<close> the frame callbacks registered with session objects
  through \<^verbatim>\<open>requestAnimationFrame\<close> (session identity, callback), \<open>calls\<close> the log.
\<close>

record world =
  heap :: "RenderView list"
  frameCallbacks :: "(nat \<times> XRFrameRequestCallback) list"
  calls :: "call list"

definition logCall :: "call \<Rightarrow> world \<Rightarrow> world" where
  "logCall k w = w\<lparr>calls := calls w @ [k]\<rparr>"

definition requestAnimationFrame :: "XRSession \<Rightarrow> XRFrameRequestCallback \<Rightarrow> world \<Rightarrow> world" where
  "requestAnimationFrame s cb w =
     logCall (RequestAnimationFrame (sessionId s) cb)
       (w\<lparr>frameCallbacks := frameCallbacks w @ [(sessionId s, cb)]\<rparr>)"

section \<open>JavaScript arrays of object references\<close>

text \<open>
  \<^verbatim>\<open>xs[i]\<close> is \<^verbatim>\<open>undefined\<close> beyond the end of the array (and at a hole);
  \<^verbatim>\<open>xs[i] = v\<close> beyond the end extends the array, leaving holes in between.
\<close>

definition js_index :: "'a option list \<Rightarrow> nat \<Rightarrow> 'a option" where
  "js_index xs i = (if i < length xs then xs ! i else None)"

definition js_assign :: "'a option list \<Rightarrow> nat \<Rightarrow> 'a \<Rightarrow> 'a option list" where
  "js_assign xs i v =
     (if i < length xs then xs[i := Some v]
      else xs @ replicate (i - length xs) None @ [Some v])"

section \<open>The controller (source/xrcontroller.ts)\<close>

text \<open>
  The fields of \<^verbatim>\<open>XRController\<close> that its methods below read or write. \<open>renderViews\<close>
  holds references into the heap; \<open>block_flag\<close> is the field \<^verbatim>\<open>_block\<close>. The
  configuration fields read only by \<^verbatim>\<open>requestSession\<close> and \<^verbatim>\<open>initialize\<close>
  (\<^verbatim>\<open>contextAttributes\<close>, \<^verbatim>\<open>webGLLayerInit\<close>, \<^verbatim>\<open>frameOfRefType\<close>, \<^verbatim>\<open>frameOfRefOptions\<close>)
  are left out with those two methods.
\<close>

record XRController =
  renderViews :: "nat option list"
  sessionCreationOptions :: XRSessionCreationOptions
  device :: "XRDevice option"
  session :: "XRSession option"
  canvas :: "Canvas option"
  gl :: "GL option"
  frameOfRef :: "XRFrameOfReference option"
  renderer :: "Renderer option"
  block_flag :: bool

text \<open>
  The constructor with the field initialisers: the pool starts as
  \<^verbatim>\<open>[new RenderView()]\<close>, \<^verbatim>\<open>_block\<close> as \<^verbatim>\<open>false\<close>, the options as
  \<^verbatim>\<open>sessionOpts || {}\<close>, everything else undefined.
\<close>

definition XRController_new ::
  "XRSessionCreationOptions option \<Rightarrow> world \<Rightarrow> XRController \<times> world" where
  "XRController_new sessionOpts w =
     (\<lparr>renderViews = [Some (length (heap w))],
       sessionCreationOptions =
         (case sessionOpts of
            None \<Rightarrow> \<lparr>immersive = None, outputContext = None\<rparr>
          | Some opts \<Rightarrow> opts),
       device = None, session = None, canvas = None, gl = None, frameOfRef = None,
       renderer = None, block_flag = False\<rparr>,
      logCall (NewRenderView (length (heap w))) (w\<lparr>heap := heap w @ [RenderView_new]\<rparr>))"

text \<open>
  Modelled from the spec: \<^verbatim>\<open>assert\<close> of \<^verbatim>\<open>./auxiliaries\<close> is not among the sources. The
  spec requires \<^verbatim>\<open>initialize\<close> to have completed before any operation that touches the
  device; a failed assertion is taken to throw an error carrying the message.
\<close>

definition assert :: "bool \<Rightarrow> string \<Rightarrow> completion" where
  "assert statement message = (if statement then Returned else Threw (EvalError message))"

text \<open>
  \<^verbatim>\<open>supportsSession\<close>: after the assertion, the device's promise is awaited inside
  \<^verbatim>\<open>try\<close>; fulfilment returns \<^verbatim>\<open>true\<close>, any rejection is caught and returns \<^verbatim>\<open>false\<close>.
  The call \<^verbatim>\<open>this.device!.supportsSession\<close> sits inside the \<^verbatim>\<open>try\<close> block too, so the
  TypeError of a call on an undefined device would be caught as well; the assertion
  throws before that can happen.
\<close>

definition supportsSession :: "XRController \<Rightarrow> exn + bool" where
  "supportsSession c =
     (case assert (device c \<noteq> None) ''this.device not initialized'' of
        Threw e \<Rightarrow> Inl e
      | Returned \<Rightarrow>
          (case device c of
             None \<Rightarrow> Inr False
           | Some d \<Rightarrow>
               (case device_supportsSession d (sessionCreationOptions c) of
                  Fulfilled u \<Rightarrow> Inr True
                | Rejected e \<Rightarrow> Inr False)))"

text \<open>
  \<^verbatim>\<open>endSession\<close> awaits \<^verbatim>\<open>this.session!.end()\<close>: with no session the property access
  throws a TypeError, otherwise the method completes as the session's promise settles.
  It writes no field itself; the fields are cleared by \<^verbatim>\<open>onEndSession\<close>, which the
  listener registered in \<^verbatim>\<open>requestSession\<close> runs when the platform dispatches \<^verbatim>\<open>'end'\<close>.
\<close>

definition endSession :: "XRController \<Rightarrow> world \<Rightarrow> completion \<times> XRController \<times> world" where
  "endSession c w =
     (case session c of
        None \<Rightarrow> (Threw TypeError, c, w)
      | Some s \<Rightarrow>
          (case session_end s of
             Fulfilled u \<Rightarrow> (Returned, c, logCall (SessionEnd (sessionId s)) w)
           | Rejected e \<Rightarrow> (Threw e, c, logCall (SessionEnd (sessionId s)) w)))"

definition onEndSession :: "XRController \<Rightarrow> world \<Rightarrow> completion \<times> XRController \<times> world" where
  "onEndSession c w =
     (Returned, c\<lparr>session := None, canvas := None, gl := None, frameOfRef := None\<rparr>, w)"

text \<open>
  One pass of the loop body of \<^verbatim>\<open>onXRFrame\<close> for index \<open>i\<close> and view \<open>v\<close>: a missing
  slot gets a new \<^verbatim>\<open>RenderView\<close>, then the slot's object is overwritten by \<^verbatim>\<open>set\<close>.
\<close>

definition renderViewSlot ::
  "nat \<Rightarrow> XRView \<Rightarrow> XRDevicePose \<Rightarrow> XRWebGLLayer \<Rightarrow> nat option list \<times> world
     \<Rightarrow> nat option list \<times> world" where
  "renderViewSlot i v pose layer st =
     (case st of (pool, w) \<Rightarrow>
        (case js_index pool i of
           None \<Rightarrow>
             (let a = length (heap w);
                  rv = RenderView_set (projectionMatrix v) (getViewMatrix pose v)
                         (getViewport layer v) RenderView_new
              in (js_assign pool i a,
                  logCall (RenderViewSet a)
                    (logCall (NewRenderView a) (w\<lparr>heap := heap w @ [rv]\<rparr>))))
         | Some a \<Rightarrow>
             (pool,
              logCall (RenderViewSet a)
                (w\<lparr>heap := (heap w)[a := RenderView_set (projectionMatrix v)
                                          (getViewMatrix pose v) (getViewport layer v)
                                          (heap w ! a)]\<rparr>))))"

text \<open>The loop \<^verbatim>\<open>for (let i = 0; i < frame.views.length; ++i)\<close>, from index \<open>i\<close> on.\<close>

fun renderViewsLoop ::
  "nat \<Rightarrow> XRView list \<Rightarrow> XRDevicePose \<Rightarrow> XRWebGLLayer \<Rightarrow> nat option list \<times> world
     \<Rightarrow> nat option list \<times> world" where
  "renderViewsLoop i [] pose layer st = st"
| "renderViewsLoop i (v # vs) pose layer st =
     renderViewsLoop (Suc i) vs pose layer (renderViewSlot i v pose layer st)"

text \<open>
  \<^verbatim>\<open>onXRFrame(time, frame)\<close>. Each \<^verbatim>\<open>!\<close> of the source is a compile-time assertion
  only: at run time a call on an undefined \<^verbatim>\<open>session\<close>, \<^verbatim>\<open>gl\<close> or \<^verbatim>\<open>renderer\<close> throws a
  TypeError and leaves what was done before it. The renderer's \<^verbatim>\<open>frame\<close> is an external
  collaborator and is taken to return.
\<close>

definition onXRFrame ::
  "XRController \<Rightarrow> world \<Rightarrow> number \<Rightarrow> XRFrame \<Rightarrow> completion \<times> XRController \<times> world" where
  "onXRFrame c w time frame =
     (case session c of
        None \<Rightarrow> (Threw TypeError, c, w)
      | Some s \<Rightarrow>
          (let w1 = requestAnimationFrame s OnXRFrameCallback w;
               g = gl c;
               pose = getDevicePose frame (frameOfRef c);
               w2 = logCall (GetDevicePose (frameOfRef c)) w1
           in (case pose of
                 Some p \<Rightarrow>
                   (case g of
                      None \<Rightarrow> (Threw TypeError, c, w2)
                    | Some glc \<Rightarrow>
                        (let w3 = logCall (BindFramebuffer glc (framebuffer (baseLayer s))) w2;
                             st = renderViewsLoop 0 (views frame) p (baseLayer s)
                                    (renderViews c, w3);
                             c' = c\<lparr>renderViews := fst st\<rparr>
                         in (case renderer c' of
                               None \<Rightarrow> (Threw TypeError, c', snd st)
                             | Some r \<Rightarrow>
                                 (Returned, c',
                                  logCall (RendererFrame r 0 (renderViews c')) (snd st)))))
               | None \<Rightarrow>
                   (Returned, c,
                    logCall (ConsoleWarn ''no pose - this is not handled yet.'') w2))))"

definition block :: "XRController \<Rightarrow> XRController" where
  "block c = c\<lparr>block_flag := True\<rparr>"

definition blocked :: "XRController \<Rightarrow> bool" where
  "blocked c = block_flag c"

definition unblock :: "XRController \<Rightarrow> XRController" where
  "unblock c = c\<lparr>block_flag := False\<rparr>"

text \<open>The setter \<^verbatim>\<open>controllable\<close> wires the renderer in.\<close>

definition set_controllable :: "Renderer \<Rightarrow> XRController \<Rightarrow> XRController" where
  "set_controllable r c = c\<lparr>renderer := Some r\<rparr>"

definition update :: "bool \<Rightarrow> XRController \<Rightarrow> XRController" where
  "update force c = c"

text \<open>Reading the three parts of a method's result.\<close>

definition completion_of :: "completion \<times> XRController \<times> world \<Rightarrow> completion" where
  "completion_of r = fst r"

definition controller_of :: "completion \<times> XRController \<times> world \<Rightarrow> XRController" where
  "controller_of r = fst (snd r)"

definition world_of :: "completion \<times> XRController \<times> world \<Rightarrow> world" where
  "world_of r = snd (snd r)"

section \<open>Reading the call log and the pool\<close>

fun isRequestAnimationFrame :: "call \<Rightarrow> bool" where
  "isRequestAnimationFrame (RequestAnimationFrame sid cb) = True"
| "isRequestAnimationFrame k = False"

fun isRendererFrame :: "call \<Rightarrow> bool" where
  "isRendererFrame (RendererFrame r t xs) = True"
| "isRendererFrame k = False"

fun isRenderViewCall :: "call \<Rightarrow> bool" where
  "isRenderViewCall (NewRenderView a) = True"
| "isRenderViewCall (RenderViewSet a) = True"
| "isRenderViewCall k = False"

text \<open>
  A pool is well formed over a heap when its slots hold pairwise different references
  to allocated objects (no holes, no dangling reference, no object shared by two
  slots). The constructor's pool is, and \<^verbatim>\<open>onXRFrame\<close> keeps it so.
\<close>

definition validRef :: "nat \<Rightarrow> nat option \<Rightarrow> bool" where
  "validRef n r = (case r of None \<Rightarrow> False | Some a \<Rightarrow> a < n)"

definition poolOk :: "nat option list \<Rightarrow> RenderView list \<Rightarrow> bool" where
  "poolOk pool h = (distinct pool \<and> list_all (validRef (length h)) pool)"

text \<open>The object that \<^verbatim>\<open>renderViews[j]\<close> evaluates to, if any.\<close>

definition poolObject :: "nat option list \<Rightarrow> RenderView list \<Rightarrow> nat \<Rightarrow> RenderView option" where
  "poolObject pool h j =
     (case js_index pool j of
        None \<Rightarrow> None
      | Some a \<Rightarrow> if a < length h then Some (h ! a) else None)"

text \<open>What \<^verbatim>\<open>set\<close> leaves in a render view for view \<open>v\<close> under pose \<open>p\<close> and layer \<open>l\<close>.\<close>

definition renderViewOf :: "XRDevicePose \<Rightarrow> XRWebGLLayer \<Rightarrow> XRView \<Rightarrow> RenderView" where
  "renderViewOf p l v =
     \<lparr>rv_projectionMatrix = Some (projectionMatrix v),
      rv_viewMatrix = Some (getViewMatrix p v),
      rv_viewport = getViewport l v\<rparr>"

text \<open>
  The platform invoking the frame callback once per frame of a list: each invocation
  runs on the state the one before left, however that one completed.
\<close>

fun onXRFrames ::
  "XRController \<Rightarrow> world \<Rightarrow> (number \<times> XRFrame) list \<Rightarrow> XRController \<times> world" where
  "onXRFrames c w [] = (c, w)"
| "onXRFrames c w (tf # fs) =
     onXRFrames (controller_of (onXRFrame c w (fst tf) (snd tf)))
       (world_of (onXRFrame c w (fst tf) (snd tf))) fs"

section \<open>A stereo device, for concrete runs\<close>

definition demo_projection :: Float32Array where
  "demo_projection = [1, 0, 0, 0,  0, 1, 0, 0,  0, 0, -1, -1,  0, 0, -2, 0]"

definition demo_left :: XRView where
  "demo_left = \<lparr>eye = EyeLeft, projectionMatrix = demo_projection\<rparr>"

definition demo_right :: XRView where
  "demo_right = \<lparr>eye = EyeRight, projectionMatrix = demo_projection\<rparr>"

definition demo_pose :: XRDevicePose where
  "demo_pose =
     \<lparr>poseModelMatrix = [1, 0, 0, 0,  0, 1, 0, 0,  0, 0, 1, 0,  0, 0, 0, 1],
      getViewMatrix = (\<lambda>v. case eye v of
         EyeLeft \<Rightarrow> [1, 0, 0, 0,  0, 1, 0, 0,  0, 0, 1, 0,  3, 0, 0, 1]
       | EyeRight \<Rightarrow> [1, 0, 0, 0,  0, 1, 0, 0,  0, 0, 1, 0,  -3, 0, 0, 1])\<rparr>"

definition demo_layer :: XRWebGLLayer where
  "demo_layer =
     \<lparr>framebuffer = WebGLFramebuffer 5,
      getViewport = (\<lambda>v. case eye v of
         EyeLeft \<Rightarrow> Some (XRViewport 0 0 960 1080)
       | EyeRight \<Rightarrow> Some (XRViewport 960 0 960 1080))\<rparr>"

definition demo_session :: XRSession where
  "demo_session = \<lparr>sessionId = 1, baseLayer = demo_layer, session_end = Fulfilled ()\<rparr>"

definition demo_options :: XRSessionCreationOptions where
  "demo_options = \<lparr>immersive = Some True, outputContext = None\<rparr>"

text \<open>A device that supports every configuration but an immersive one.\<close>

definition demo_device :: XRDevice where
  "demo_device =
     \<lparr>deviceId = 0,
      device_supportsSession = (\<lambda>opts.
         if immersive opts = Some True then Rejected (DOMException ''NotSupportedError'')
         else Fulfilled ())\<rparr>"

definition demo_world0 :: world where
  "demo_world0 = \<lparr>heap = [], frameCallbacks = [], calls = []\<rparr>"

text \<open>
  The controller as constructed, then with the renderer wired in and the fields that
  \<^verbatim>\<open>initialize\<close> and \<^verbatim>\<open>requestSession\<close> assign; \<open>demo_world\<close> is the world the constructor
  leaves, at the moment the platform invokes the first frame callback.
\<close>

definition demo_controller :: XRController where
  "demo_controller =
     (set_controllable (Renderer 0) (fst (XRController_new (Some demo_options) demo_world0)))
       \<lparr>device := Some demo_device, session := Some demo_session, canvas := Some (Canvas 0),
        gl := Some (GL 0), frameOfRef := Some (XRFrameOfReference 0)\<rparr>"

definition demo_world :: world where
  "demo_world = snd (XRController_new (Some demo_options) demo_world0)"

definition demo_frame_stereo :: XRFrame where
  "demo_frame_stereo = \<lparr>views = [demo_left, demo_right], getDevicePose = (\<lambda>cs. Some demo_pose)\<rparr>"

definition demo_frame_mono :: XRFrame where
  "demo_frame_mono = \<lparr>views = [demo_left], getDevicePose = (\<lambda>cs. Some demo_pose)\<rparr>"

text \<open>A stereo frame for which tracking is lost.\<close>

definition demo_frame_lost :: XRFrame where
  "demo_frame_lost = \<lparr>views = [demo_left, demo_right], getDevicePose = (\<lambda>cs. None)\<rparr>"

definition demo_after_stereo :: "completion \<times> XRController \<times> world" where
  "demo_after_stereo = onXRFrame demo_controller demo_world 0 demo_frame_stereo"

definition demo_after_mono :: "completion \<times> XRController \<times> world" where
  "demo_after_mono =
     onXRFrame (controller_of demo_after_stereo) (world_of demo_after_stereo) 16 demo_frame_mono"

lemmas demo_controller_defs =
  demo_layer_def demo_session_def demo_options_def demo_device_def demo_world0_def
  demo_controller_def demo_world_def XRController_new_def set_controllable_def
  RenderView_new_def

lemmas demo_stereo_defs =
  demo_projection_def demo_left_def demo_right_def demo_pose_def demo_frame_stereo_def

lemmas run_defs =
  onXRFrame_def requestAnimationFrame_def logCall_def renderViewSlot_def js_index_def
  js_assign_def RenderView_set_def completion_of_def controller_of_def world_of_def


section \<open>The loop over the views\<close>

lemma renderViewSlot_calls:
  "\<exists>ys. calls (snd (renderViewSlot i v p l (pool, w))) = calls w @ ys \<and> list_all isRenderViewCall ys"
  by (simp add: renderViewSlot_def logCall_def Let_def split: option.splits)

lemma renderViewsLoop_calls:
  "\<exists>ys. calls (snd (renderViewsLoop i vs p l (pool, w))) = calls w @ ys \<and> list_all isRenderViewCall ys"
proof (induction vs arbitrary: i pool w)
  case Nil
  then show ?case by simp
next
  case (Cons v vs)
  obtain pool1 w1 where st: "renderViewSlot i v p l (pool, w) = (pool1, w1)"
    by (cases "renderViewSlot i v p l (pool, w)")
  from renderViewSlot_calls [of i v p l pool w] st
  obtain ys where ys: "calls w1 = calls w @ ys" "list_all isRenderViewCall ys" by auto
  from Cons.IH [of "Suc i" pool1 w1]
  obtain zs where zs: "calls (snd (renderViewsLoop (Suc i) vs p l (pool1, w1))) = calls w1 @ zs"
    "list_all isRenderViewCall zs" by auto
  show ?case using st ys zs by simp
qed

lemma renderViewSlot_frameCallbacks:
  "frameCallbacks (snd (renderViewSlot i v p l (pool, w))) = frameCallbacks w"
  by (simp add: renderViewSlot_def logCall_def Let_def split: option.splits)

lemma renderViewsLoop_frameCallbacks:
  "frameCallbacks (snd (renderViewsLoop i vs p l (pool, w))) = frameCallbacks w"
proof (induction vs arbitrary: i pool w)
  case Nil
  then show ?case by simp
next
  case (Cons v vs)
  obtain pool1 w1 where st: "renderViewSlot i v p l (pool, w) = (pool1, w1)"
    by (cases "renderViewSlot i v p l (pool, w)")
  with renderViewSlot_frameCallbacks [of i v p l pool w] Cons.IH [of "Suc i" pool1 w1]
  show ?case by simp
qed

lemma renderViewSlot_length:
  "length (fst (renderViewSlot i v p l (pool, w))) = max (length pool) (Suc i)"
  by (auto simp add: renderViewSlot_def js_index_def js_assign_def Let_def split: option.splits if_splits)

lemma renderViewsLoop_length:
  "length (fst (renderViewsLoop i vs p l (pool, w))) =
     (if vs = [] then length pool else max (length pool) (i + length vs))"
proof (induction vs arbitrary: i pool w)
  case Nil
  then show ?case by simp
next
  case (Cons v vs)
  obtain pool1 w1 where st: "renderViewSlot i v p l (pool, w) = (pool1, w1)"
    by (cases "renderViewSlot i v p l (pool, w)")
  have len1: "length pool1 = max (length pool) (Suc i)"
    using renderViewSlot_length [of i v p l pool w] st by simp
  show ?case using st len1 Cons.IH [of "Suc i" pool1 w1] by auto
qed

lemma renderViewSlot_keeps:
  "js_index pool j = Some a \<Longrightarrow> js_index (fst (renderViewSlot i v p l (pool, w))) j = Some a"
  by (cases "i = j")
     (auto simp add: renderViewSlot_def js_index_def js_assign_def Let_def nth_append
      split: option.splits if_splits)

lemma renderViewsLoop_keeps:
  "js_index pool j = Some a \<Longrightarrow> js_index (fst (renderViewsLoop i vs p l (pool, w))) j = Some a"
proof (induction vs arbitrary: i pool w)
  case Nil
  then show ?case by simp
next
  case (Cons v vs)
  obtain pool1 w1 where st: "renderViewSlot i v p l (pool, w) = (pool1, w1)"
    by (cases "renderViewSlot i v p l (pool, w)")
  have "js_index pool1 j = Some a"
    using renderViewSlot_keeps [OF Cons.prems, of i v p l w] st by simp
  from Cons.IH [OF this, of "Suc i" w1] st show ?case by simp
qed


lemma RenderView_set_eq:
  "RenderView_set (projectionMatrix v) (getViewMatrix p v) (getViewport l v) rv = renderViewOf p l v"
  by (simp add: RenderView_set_def renderViewOf_def)

lemma poolOk_nth:
  "poolOk pool h \<Longrightarrow> i < length pool \<Longrightarrow> \<exists>a. pool ! i = Some a \<and> a < length h"
  by (auto simp add: poolOk_def validRef_def list_all_length split: option.splits)

lemma renderViewSlot_old:
  assumes "poolOk pool (heap w)" and "i < length pool"
  shows "\<exists>a. pool ! i = Some a \<and> a < length (heap w) \<and>
     renderViewSlot i v p l (pool, w) =
       (pool, logCall (RenderViewSet a) (w\<lparr>heap := (heap w)[a := renderViewOf p l v]\<rparr>))"
  using poolOk_nth [OF assms] assms(2)
  by (auto simp add: renderViewSlot_def js_index_def RenderView_set_eq)

lemma renderViewSlot_new:
  assumes "i = length pool"
  shows "renderViewSlot i v p l (pool, w) =
       (pool @ [Some (length (heap w))],
        logCall (RenderViewSet (length (heap w)))
          (logCall (NewRenderView (length (heap w)))
             (w\<lparr>heap := heap w @ [renderViewOf p l v]\<rparr>)))"
  using assms
  by (simp add: renderViewSlot_def js_index_def js_assign_def RenderView_set_eq Let_def)

lemma renderViewSlot_ok:
  assumes ok: "poolOk pool (heap w)" and le: "i \<le> length pool"
    and st: "renderViewSlot i v p l (pool, w) = (pool1, w1)"
  shows "poolOk pool1 (heap w1)"
    and "Suc i \<le> length pool1"
    and "poolObject pool1 (heap w1) i = Some (renderViewOf p l v)"
    and "\<And>j. j \<noteq> i \<Longrightarrow> poolObject pool1 (heap w1) j = poolObject pool (heap w) j"
proof -
  show "poolOk pool1 (heap w1)"
  proof (cases "i < length pool")
    case True
    from renderViewSlot_old [OF ok True, of v p l] st
    show ?thesis using ok by (auto simp add: poolOk_def logCall_def)
  next
    case False
    with le have "i = length pool" by simp
    from renderViewSlot_new [OF this, of v p l w] st
    show ?thesis using ok
      by (auto simp add: poolOk_def validRef_def logCall_def list_all_iff split: option.splits)
  qed
  show "Suc i \<le> length pool1"
    using renderViewSlot_length [of i v p l pool w] st by simp
  show "poolObject pool1 (heap w1) i = Some (renderViewOf p l v)"
  proof (cases "i < length pool")
    case True
    from renderViewSlot_old [OF ok True, of v p l] st True
    show ?thesis by (auto simp add: poolObject_def js_index_def logCall_def)
  next
    case False
    with le have "i = length pool" by simp
    from renderViewSlot_new [OF this, of v p l w] st this
    show ?thesis by (auto simp add: poolObject_def js_index_def logCall_def)
  qed
  show "poolObject pool1 (heap w1) j = poolObject pool (heap w) j" if ne: "j \<noteq> i" for j
  proof (cases "i < length pool")
    case True
    from renderViewSlot_old [OF ok True, of v p l] st
    obtain a where a: "pool ! i = Some a" "a < length (heap w)" "pool1 = pool"
      "heap w1 = (heap w)[a := renderViewOf p l v]"
      by (auto simp add: logCall_def)
    show ?thesis
    proof (cases "j < length pool")
      case jl: True
      from poolOk_nth [OF ok jl] obtain b where b: "pool ! j = Some b" "b < length (heap w)" by auto
      have "distinct pool" using ok by (simp add: poolOk_def)
      with ne True jl a(1) b(1) have "a \<noteq> b"
        by (metis nth_eq_iff_index_eq option.inject)
      then show ?thesis using a b jl by (simp add: poolObject_def js_index_def)
    next
      case False
      then show ?thesis using a by (simp add: poolObject_def js_index_def)
    qed
  next
    case False
    with le have il: "i = length pool" by simp
    from renderViewSlot_new [OF this, of v p l w] st
    have eq: "pool1 = pool @ [Some (length (heap w))]" "heap w1 = heap w @ [renderViewOf p l v]"
      by (auto simp add: logCall_def)
    show ?thesis
    proof (cases "j < length pool")
      case jl: True
      from poolOk_nth [OF ok jl] obtain b where b: "pool ! j = Some b" "b < length (heap w)" by auto
      then show ?thesis using eq jl by (simp add: poolObject_def js_index_def nth_append)
    next
      case False
      with ne il have "length pool < j" by simp
      then show ?thesis using eq by (simp add: poolObject_def js_index_def)
    qed
  qed
qed

lemma renderViewsLoop_ok:
  assumes "poolOk pool (heap w)" and "i \<le> length pool"
    and "renderViewsLoop i vs p l (pool, w) = (pool', w')"
  shows "poolOk pool' (heap w') \<and>
    (\<forall>j<i. poolObject pool' (heap w') j = poolObject pool (heap w) j) \<and>
    (\<forall>j\<ge>i + length vs. poolObject pool' (heap w') j = poolObject pool (heap w) j) \<and>
    (\<forall>k<length vs. poolObject pool' (heap w') (i + k) = Some (renderViewOf p l (vs ! k)))"
  using assms
proof (induction vs arbitrary: i pool w)
  case Nil
  then show ?case by simp
next
  case (Cons v vs)
  obtain pool1 w1 where st: "renderViewSlot i v p l (pool, w) = (pool1, w1)"
    by (cases "renderViewSlot i v p l (pool, w)")
  note slot = renderViewSlot_ok [OF Cons.prems(1) Cons.prems(2) st]
  from Cons.prems(3) st have run: "renderViewsLoop (Suc i) vs p l (pool1, w1) = (pool', w')"
    by simp
  note ih = Cons.IH [OF slot(1) slot(2) run]
  have a: "\<forall>j<i. poolObject pool' (heap w') j = poolObject pool (heap w) j"
    using ih slot(4) by auto
  have b: "\<forall>j\<ge>i + length (v # vs). poolObject pool' (heap w') j = poolObject pool (heap w) j"
    using ih slot(4) by auto
  have c: "\<forall>k<length (v # vs). poolObject pool' (heap w') (i + k) = Some (renderViewOf p l ((v # vs) ! k))"
  proof (intro allI impI)
    fix k assume k: "k < length (v # vs)"
    show "poolObject pool' (heap w') (i + k) = Some (renderViewOf p l ((v # vs) ! k))"
    proof (cases k)
      case 0
      then show ?thesis using ih slot(3) by auto
    next
      case (Suc k')
      with k have "k' < length vs" by simp
      with ih have "poolObject pool' (heap w') (Suc i + k') = Some (renderViewOf p l (vs ! k'))"
        by blast
      then show ?thesis using Suc by simp
    qed
  qed
  from ih a b c show ?case by blast
qed


lemma no_RendererFrame_in_loop:
  "list_all isRenderViewCall ys \<Longrightarrow> filter isRendererFrame ys = []"
  by (induction ys) (auto elim: isRenderViewCall.elims)

lemma no_RequestAnimationFrame_in_loop:
  "list_all isRenderViewCall ys \<Longrightarrow> filter isRequestAnimationFrame ys = []"
  by (induction ys) (auto elim: isRenderViewCall.elims)

section \<open>One frame\<close>

lemma onXRFrame_posed:
  assumes "session c = Some s" and "gl c = Some g" and "renderer c = Some r"
    and "getDevicePose f (frameOfRef c) = Some p"
    and "w3 = logCall (BindFramebuffer g (framebuffer (baseLayer s)))
             (logCall (GetDevicePose (frameOfRef c))
                (requestAnimationFrame s OnXRFrameCallback w))"
    and "renderViewsLoop 0 (views f) p (baseLayer s) (renderViews c, w3) = (pool', w4)"
  shows "onXRFrame c w t f =
     (Returned, c\<lparr>renderViews := pool'\<rparr>, logCall (RendererFrame r 0 pool') w4)"
  using assms by (simp add: onXRFrame_def Let_def)

lemma onXRFrame_fields:
  "session (controller_of (onXRFrame c w t f)) = session c \<and>
   gl (controller_of (onXRFrame c w t f)) = gl c \<and>
   frameOfRef (controller_of (onXRFrame c w t f)) = frameOfRef c \<and>
   renderer (controller_of (onXRFrame c w t f)) = renderer c \<and>
   canvas (controller_of (onXRFrame c w t f)) = canvas c \<and>
   device (controller_of (onXRFrame c w t f)) = device c \<and>
   sessionCreationOptions (controller_of (onXRFrame c w t f)) = sessionCreationOptions c \<and>
   block_flag (controller_of (onXRFrame c w t f)) = block_flag c"
  by (simp add: onXRFrame_def controller_of_def Let_def split: option.splits)

lemma onXRFrame_pool_length:
  "length (renderViews c) \<le> length (renderViews (controller_of (onXRFrame c w t f)))"
  by (simp add: onXRFrame_def controller_of_def Let_def renderViewsLoop_length
      split: option.splits)

lemma onXRFrame_pool_keeps:
  "js_index (renderViews c) j = Some a \<Longrightarrow>
     js_index (renderViews (controller_of (onXRFrame c w t f))) j = Some a"
  by (simp add: onXRFrame_def controller_of_def Let_def renderViewsLoop_keeps
      split: option.splits)

lemma onXRFrame_pool_covers:
  assumes "session c = Some s" and "gl c = Some g"
    and "getDevicePose f (frameOfRef c) = Some p"
  shows "length (renderViews (controller_of (onXRFrame c w t f))) =
     max (length (renderViews c)) (length (views f))"
  using assms
  by (simp add: onXRFrame_def controller_of_def Let_def renderViewsLoop_length
      split: option.splits)

text \<open>Well-formedness of the pool holds after the constructor and after every frame.\<close>

lemma XRController_new_poolOk:
  "poolOk (renderViews (fst (XRController_new sessionOpts w)))
     (heap (snd (XRController_new sessionOpts w)))"
  by (simp add: XRController_new_def poolOk_def validRef_def logCall_def)

lemma onXRFrame_poolOk:
  assumes "poolOk (renderViews c) (heap w)"
  shows "poolOk (renderViews (controller_of (onXRFrame c w t f)))
     (heap (world_of (onXRFrame c w t f)))"
proof (cases "session c")
  case None
  then show ?thesis using assms
    by (simp add: onXRFrame_def controller_of_def world_of_def)
next
  case (Some s)
  note sess = this
  show ?thesis
  proof (cases "getDevicePose f (frameOfRef c)")
    case None
    then show ?thesis using assms sess
      by (simp add: onXRFrame_def controller_of_def world_of_def Let_def logCall_def
          requestAnimationFrame_def)
  next
    case (Some p)
    note pose = this
    show ?thesis
    proof (cases "gl c")
      case None
      then show ?thesis using assms sess pose
        by (simp add: onXRFrame_def controller_of_def world_of_def Let_def logCall_def
            requestAnimationFrame_def)
    next
      case (Some g)
      let ?w3 = "logCall (BindFramebuffer g (framebuffer (baseLayer s)))
             (logCall (GetDevicePose (frameOfRef c))
                (requestAnimationFrame s OnXRFrameCallback w))"
      obtain pool' w4 where loop:
        "renderViewsLoop 0 (views f) p (baseLayer s) (renderViews c, ?w3) = (pool', w4)"
        by (cases "renderViewsLoop 0 (views f) p (baseLayer s) (renderViews c, ?w3)")
      have ok3: "poolOk (renderViews c) (heap ?w3)"
        using assms by (simp add: logCall_def requestAnimationFrame_def)
      have "poolOk pool' (heap w4)"
        using renderViewsLoop_ok [OF ok3 _ loop] by simp
      then show ?thesis using sess pose Some loop
        by (simp add: onXRFrame_def controller_of_def world_of_def Let_def logCall_def
            split: option.splits)
    qed
  qed
qed

section \<open>Sequences of frames\<close>

lemma onXRFrames_snoc:
  "onXRFrames c w (fs @ [(t, f)]) =
     (controller_of (onXRFrame (fst (onXRFrames c w fs)) (snd (onXRFrames c w fs)) t f),
      world_of (onXRFrame (fst (onXRFrames c w fs)) (snd (onXRFrames c w fs)) t f))"
  by (induction fs arbitrary: c w) simp_all

lemma onXRFrames_fields:
  "session (fst (onXRFrames c w fs)) = session c \<and>
   gl (fst (onXRFrames c w fs)) = gl c \<and>
   frameOfRef (fst (onXRFrames c w fs)) = frameOfRef c"
proof (induction fs arbitrary: c w)
  case Nil
  then show ?case by simp
next
  case (Cons tf fs)
  show ?case
    using Cons.IH [of "controller_of (onXRFrame c w (fst tf) (snd tf))"
        "world_of (onXRFrame c w (fst tf) (snd tf))"]
      onXRFrame_fields [of c w "fst tf" "snd tf"]
    by simp
qed

lemma onXRFrames_pool_length:
  "length (renderViews c) \<le> length (renderViews (fst (onXRFrames c w fs)))"
proof (induction fs arbitrary: c w)
  case Nil
  then show ?case by simp
next
  case (Cons tf fs)
  have "length (renderViews c) \<le>
      length (renderViews (controller_of (onXRFrame c w (fst tf) (snd tf))))"
    by (rule onXRFrame_pool_length)
  also have "\<dots> \<le> length (renderViews (fst (onXRFrames c w (tf # fs))))"
    using Cons.IH by simp
  finally show ?case .
qed

lemma onXRFrames_pool_keeps:
  "js_index (renderViews c) j = Some a \<Longrightarrow>
     js_index (renderViews (fst (onXRFrames c w fs))) j = Some a"
proof (induction fs arbitrary: c w)
  case Nil
  then show ?case by simp
next
  case (Cons tf fs)
  from onXRFrame_pool_keeps [OF Cons.prems]
  have "js_index (renderViews (controller_of (onXRFrame c w (fst tf) (snd tf)))) j = Some a" .
  from Cons.IH [OF this] show ?case by simp
qed

section \<open>Claims\<close>

subsection \<open>C8: the block flag\<close>

text \<open>
  Claim C8. From any controller state, \<^verbatim>\<open>block()\<close> then \<^verbatim>\<open>unblock()\<close> leaves \<^verbatim>\<open>blocked\<close>
  false; \<^verbatim>\<open>blocked\<close> is true after a \<^verbatim>\<open>block()\<close> and false after an \<^verbatim>\<open>unblock()\<close>, and
  false on a new controller. No other method writes the flag, so the getter always
  reflects the most recent of \<^verbatim>\<open>block\<close> and \<^verbatim>\<open>unblock\<close>.
\<close>

theorem blocked_reflects_last_block_call:
  "blocked (unblock (block c)) = False \<and>
   blocked (block c) = True \<and>
   blocked (block (unblock c)) = True \<and>
   blocked (unblock c) = False \<and>
   blocked (fst (XRController_new sessionOpts w)) = False \<and>
   blocked (update force c) = blocked c \<and>
   blocked (set_controllable r c) = blocked c \<and>
   blocked (controller_of (onXRFrame c w t f)) = blocked c \<and>
   blocked (controller_of (onEndSession c w)) = blocked c \<and>
   blocked (controller_of (endSession c w)) = blocked c"
proof -
  have "blocked (controller_of (onXRFrame c w t f)) = blocked c"
    using onXRFrame_fields [of c w t f] by (simp add: blocked_def)
  moreover have "blocked (controller_of (endSession c w)) = blocked c"
    by (simp add: endSession_def controller_of_def blocked_def split: option.splits settled.splits)
  ultimately show ?thesis
    by (simp add: blocked_def block_def unblock_def XRController_new_def update_def
        set_controllable_def onEndSession_def controller_of_def)
qed

subsection \<open>C7: the support query\<close>

text \<open>
  Claim C7. On an initialized controller (the device is set), \<^verbatim>\<open>supportsSession\<close> never
  throws: it returns \<^verbatim>\<open>true\<close> when the device's support query is fulfilled and \<^verbatim>\<open>false\<close>
  when the device rejects the configuration.
\<close>

theorem supportsSession_returns_boolean:
  assumes "device c = Some d"
  shows "supportsSession c =
     Inr (device_supportsSession d (sessionCreationOptions c) = Fulfilled ())"
  using assms by (simp add: supportsSession_def assert_def split: settled.splits)

theorem supportsSession_returns_boolean_witness:
  "device demo_controller = Some demo_device \<and>
   device_supportsSession demo_device (sessionCreationOptions demo_controller) =
     Rejected (DOMException ''NotSupportedError'') \<and>
   supportsSession demo_controller = Inr False"
proof -
  have d: "device demo_controller = Some demo_device"
    by (simp add: demo_controller_defs)
  have r: "device_supportsSession demo_device (sessionCreationOptions demo_controller) =
     Rejected (DOMException ''NotSupportedError'')"
    by (simp add: demo_controller_defs)
  show ?thesis
    using d r supportsSession_returns_boolean [OF d] by simp
qed

subsection \<open>C10: the frame callback does not read the block flag\<close>

text \<open>
  Claim C10. Two invocations of the per-frame callback that differ only in the value
  of \<^verbatim>\<open>_block\<close> complete the same way, leave the same world (the same re-registration,
  the same render views, the same call of the renderer or none) and the same
  controller up to that flag: blocking never suppresses a frame.
\<close>

theorem onXRFrame_independent_of_block:
  "onXRFrame (c\<lparr>block_flag := b\<rparr>) w t f =
     (completion_of (onXRFrame c w t f),
      (controller_of (onXRFrame c w t f))\<lparr>block_flag := b\<rparr>,
      world_of (onXRFrame c w t f)) \<and>
   completion_of (onXRFrame (block c) w t f) = completion_of (onXRFrame (unblock c) w t f) \<and>
   world_of (onXRFrame (block c) w t f) = world_of (onXRFrame (unblock c) w t f) \<and>
   renderViews (controller_of (onXRFrame (block c) w t f)) =
     renderViews (controller_of (onXRFrame (unblock c) w t f))"
  by (simp add: onXRFrame_def block_def unblock_def completion_of_def controller_of_def
      world_of_def Let_def split: option.splits)

subsection \<open>C5: a frame without a pose\<close>

text \<open>
  Claim C5. When pose resolution fails in a frame callback of a running session, the
  callback returns normally with the controller unchanged; the world changes only by
  the re-registration, the pose query and the warning: the renderer is not called and
  no render view is allocated or written.
\<close>

theorem onXRFrame_without_pose:
  assumes "session c = Some s" and "getDevicePose f (frameOfRef c) = None"
  shows "onXRFrame c w t f =
     (Returned, c,
      w\<lparr>frameCallbacks := frameCallbacks w @ [(sessionId s, OnXRFrameCallback)],
        calls := calls w @
          [RequestAnimationFrame (sessionId s) OnXRFrameCallback,
           GetDevicePose (frameOfRef c),
           ConsoleWarn ''no pose - this is not handled yet.'']\<rparr>)"
  using assms by (simp add: onXRFrame_def requestAnimationFrame_def logCall_def Let_def)

theorem onXRFrame_without_pose_witness:
  "session demo_controller = Some demo_session \<and>
   getDevicePose demo_frame_lost (frameOfRef demo_controller) = None \<and>
   completion_of (onXRFrame demo_controller demo_world 0 demo_frame_lost) = Returned \<and>
   controller_of (onXRFrame demo_controller demo_world 0 demo_frame_lost) = demo_controller \<and>
   heap (world_of (onXRFrame demo_controller demo_world 0 demo_frame_lost)) = heap demo_world \<and>
   filter isRendererFrame
     (calls (world_of (onXRFrame demo_controller demo_world 0 demo_frame_lost))) = []"
proof -
  have s: "session demo_controller = Some demo_session"
    by (simp add: demo_controller_defs)
  have p: "getDevicePose demo_frame_lost (frameOfRef demo_controller) = None"
    by (simp add: demo_controller_defs demo_frame_lost_def)
  have c: "calls demo_world = [NewRenderView 0]"
    by (simp add: demo_controller_defs logCall_def)
  show ?thesis
    using s p c onXRFrame_without_pose [OF s p, of demo_world 0]
    by (simp add: completion_of_def controller_of_def world_of_def)
qed

subsection \<open>C9: the elapsed time handed to the renderer\<close>

text \<open>
  Claim C9. In a frame callback of a running session with a renderer, when the pose
  resolves, the renderer's \<^verbatim>\<open>frame\<close> is called exactly once, and its elapsed-time argument
  is the constant 0 whatever time the callback was given.
\<close>

theorem onXRFrame_elapsed_time_zero:
  assumes "session c = Some s" and "gl c = Some g" and "renderer c = Some r"
    and "getDevicePose f (frameOfRef c) = Some p"
  shows "filter isRendererFrame (drop (length (calls w)) (calls (world_of (onXRFrame c w t f)))) =
     [RendererFrame r 0 (renderViews (controller_of (onXRFrame c w t f)))]"
proof -
  let ?w3 = "logCall (BindFramebuffer g (framebuffer (baseLayer s)))
             (logCall (GetDevicePose (frameOfRef c))
                (requestAnimationFrame s OnXRFrameCallback w))"
  obtain pool' w4 where loop:
    "renderViewsLoop 0 (views f) p (baseLayer s) (renderViews c, ?w3) = (pool', w4)"
    by (cases "renderViewsLoop 0 (views f) p (baseLayer s) (renderViews c, ?w3)")
  have run: "onXRFrame c w t f =
     (Returned, c\<lparr>renderViews := pool'\<rparr>, logCall (RendererFrame r 0 pool') w4)"
    by (rule onXRFrame_posed [OF assms refl loop])
  obtain ys where ys: "calls w4 = calls ?w3 @ ys" "list_all isRenderViewCall ys"
    using renderViewsLoop_calls [of 0 "views f" p "baseLayer s" "renderViews c" ?w3] loop
    by auto
  have "filter isRendererFrame ys = []"
    using ys(2) by (rule no_RendererFrame_in_loop)
  then show ?thesis
    using run ys(1)
    by (simp add: world_of_def controller_of_def logCall_def requestAnimationFrame_def)
qed

theorem onXRFrame_elapsed_time_zero_witness:
  "session demo_controller = Some demo_session \<and>
   gl demo_controller = Some (GL 0) \<and>
   renderer demo_controller = Some (Renderer 0) \<and>
   getDevicePose demo_frame_stereo (frameOfRef demo_controller) = Some demo_pose \<and>
   filter isRendererFrame
     (drop (length (calls demo_world))
        (calls (world_of (onXRFrame demo_controller demo_world 1234 demo_frame_stereo)))) =
     [RendererFrame (Renderer 0) 0 [Some 0, Some 1]]"
proof -
  have s: "session demo_controller = Some demo_session"
    and g: "gl demo_controller = Some (GL 0)"
    and r: "renderer demo_controller = Some (Renderer 0)"
    and p: "getDevicePose demo_frame_stereo (frameOfRef demo_controller) = Some demo_pose"
    by (simp_all add: demo_controller_defs demo_stereo_defs)
  have v: "renderViews (controller_of (onXRFrame demo_controller demo_world 1234 demo_frame_stereo))
      = [Some 0, Some 1]"
    by (simp add: demo_controller_defs demo_stereo_defs run_defs Let_def)
  show ?thesis
    using s g r p v onXRFrame_elapsed_time_zero [OF s g r p, of demo_world 1234]
    by simp
qed

subsection \<open>C6: re-registration comes first\<close>

text \<open>
  Claim C6. In every frame callback of a running session, the first call made is the
  re-registration of the callback with the session, before the pose query, any
  render-view allocation or write and the renderer's call; it is made once, and the
  callback is registered afterwards whether or not the frame produced output.
\<close>

theorem onXRFrame_reregisters_first:
  assumes "session c = Some s"
  shows "\<exists>rest. calls (world_of (onXRFrame c w t f)) =
            calls w @ RequestAnimationFrame (sessionId s) OnXRFrameCallback # rest \<and>
          filter isRequestAnimationFrame rest = [] \<and>
          frameCallbacks (world_of (onXRFrame c w t f)) =
            frameCallbacks w @ [(sessionId s, OnXRFrameCallback)]"
proof (cases "getDevicePose f (frameOfRef c)")
  case None
  then show ?thesis using assms
    by (simp add: onXRFrame_def world_of_def requestAnimationFrame_def logCall_def Let_def)
next
  case (Some p)
  note pose = this
  show ?thesis
  proof (cases "gl c")
    case None
    then show ?thesis using assms pose
      by (simp add: onXRFrame_def world_of_def requestAnimationFrame_def logCall_def Let_def)
  next
    case (Some g)
    let ?w3 = "logCall (BindFramebuffer g (framebuffer (baseLayer s)))
             (logCall (GetDevicePose (frameOfRef c))
                (requestAnimationFrame s OnXRFrameCallback w))"
    let ?st = "renderViewsLoop 0 (views f) p (baseLayer s) (renderViews c, ?w3)"
    obtain ys where ys: "calls (snd ?st) = calls ?w3 @ ys" "list_all isRenderViewCall ys"
      using renderViewsLoop_calls [of 0 "views f" p "baseLayer s" "renderViews c" ?w3] by auto
    have nr: "filter isRequestAnimationFrame ys = []"
      using ys(2) by (rule no_RequestAnimationFrame_in_loop)
    have fc: "frameCallbacks (snd ?st) = frameCallbacks ?w3"
      by (rule renderViewsLoop_frameCallbacks)
    show ?thesis using assms Some pose ys(1) nr fc
      by (simp add: onXRFrame_def world_of_def requestAnimationFrame_def logCall_def Let_def
          split: option.splits)
  qed
qed

theorem onXRFrame_reregisters_first_witness:
  "session demo_controller = Some demo_session \<and>
   calls (world_of (onXRFrame demo_controller demo_world 0 demo_frame_lost)) =
     calls demo_world @
       [RequestAnimationFrame 1 OnXRFrameCallback,
        GetDevicePose (Some (XRFrameOfReference 0)),
        ConsoleWarn ''no pose - this is not handled yet.''] \<and>
   (\<exists>rest. calls (world_of (onXRFrame demo_controller demo_world 0 demo_frame_stereo)) =
      calls demo_world @ RequestAnimationFrame 1 OnXRFrameCallback # rest \<and>
      filter isRequestAnimationFrame rest = [] \<and>
      frameCallbacks (world_of (onXRFrame demo_controller demo_world 0 demo_frame_stereo)) =
        frameCallbacks demo_world @ [(1, OnXRFrameCallback)])"
proof -
  have s: "session demo_controller = Some demo_session"
    by (simp add: demo_controller_defs)
  have i: "sessionId demo_session = 1"
    by (simp add: demo_controller_defs)
  have l: "calls (world_of (onXRFrame demo_controller demo_world 0 demo_frame_lost)) =
     calls demo_world @
       [RequestAnimationFrame 1 OnXRFrameCallback,
        GetDevicePose (Some (XRFrameOfReference 0)),
        ConsoleWarn ''no pose - this is not handled yet.'']"
    by (simp add: demo_controller_defs demo_frame_lost_def run_defs Let_def)
  show ?thesis
    using s l onXRFrame_reregisters_first [OF s, of demo_world 0 demo_frame_stereo]
    by (simp add: i)
qed

subsection \<open>C1: what is handed to the renderer\<close>

text \<open>
  Claim C1 says that a posed frame with N views submits exactly the slice [0, N) of
  the pool. The source passes \<^verbatim>\<open>this.renderViews\<close> itself. After a stereo frame the pool
  has two slots; a following frame with one view submits both, the second one stale.
\<close>

theorem onXRFrame_submits_stale_slot:
  "length (views demo_frame_mono) = 1 \<and>
   last (calls (world_of demo_after_mono)) = RendererFrame (Renderer 0) 0 [Some 0, Some 1] \<and>
   last (calls (world_of demo_after_mono)) \<noteq>
     RendererFrame (Renderer 0) 0
       (take (length (views demo_frame_mono)) (renderViews (controller_of demo_after_mono))) \<and>
   take (length (views demo_frame_mono)) (renderViews (controller_of demo_after_mono)) = [Some 0] \<and>
   poolObject (renderViews (controller_of demo_after_mono)) (heap (world_of demo_after_mono)) 1 =
     Some (renderViewOf demo_pose demo_layer demo_right)"
  by (simp add: demo_after_mono_def demo_after_stereo_def demo_controller_defs demo_stereo_defs demo_frame_mono_def run_defs Let_def
      poolObject_def renderViewOf_def)

text \<open>
  Claim C1, amended. In a posed frame of a running session with a renderer, over a well
  formed pool of length L (which the constructor and every frame leave), with N views:
  the callback returns, its last call hands the renderer the whole pool, whose length
  is the larger of L and N; slots [0, N) hold the render views of this frame's views,
  in the device's order; the slots from N on hold what they held before, and are part
  of what is submitted. The pool stays well formed.
\<close>

theorem onXRFrame_submits_whole_pool:
  assumes "session c = Some s" and "gl c = Some g" and "renderer c = Some r"
    and "getDevicePose f (frameOfRef c) = Some p"
    and "poolOk (renderViews c) (heap w)"
  shows "completion_of (onXRFrame c w t f) = Returned \<and>
     last (calls (world_of (onXRFrame c w t f))) =
       RendererFrame r 0 (renderViews (controller_of (onXRFrame c w t f))) \<and>
     length (renderViews (controller_of (onXRFrame c w t f))) =
       max (length (renderViews c)) (length (views f)) \<and>
     (\<forall>i<length (views f).
        poolObject (renderViews (controller_of (onXRFrame c w t f)))
          (heap (world_of (onXRFrame c w t f))) i =
        Some (renderViewOf p (baseLayer s) (views f ! i))) \<and>
     (\<forall>j\<ge>length (views f).
        poolObject (renderViews (controller_of (onXRFrame c w t f)))
          (heap (world_of (onXRFrame c w t f))) j =
        poolObject (renderViews c) (heap w) j) \<and>
     poolOk (renderViews (controller_of (onXRFrame c w t f)))
       (heap (world_of (onXRFrame c w t f)))"
proof -
  let ?w3 = "logCall (BindFramebuffer g (framebuffer (baseLayer s)))
             (logCall (GetDevicePose (frameOfRef c))
                (requestAnimationFrame s OnXRFrameCallback w))"
  obtain pool' w4 where loop:
    "renderViewsLoop 0 (views f) p (baseLayer s) (renderViews c, ?w3) = (pool', w4)"
    by (cases "renderViewsLoop 0 (views f) p (baseLayer s) (renderViews c, ?w3)")
  have run: "onXRFrame c w t f =
     (Returned, c\<lparr>renderViews := pool'\<rparr>, logCall (RendererFrame r 0 pool') w4)"
    by (rule onXRFrame_posed [OF assms(1-4) refl loop])
  have h3: "heap ?w3 = heap w"
    by (simp add: logCall_def requestAnimationFrame_def)
  have ok3: "poolOk (renderViews c) (heap ?w3)"
    using assms(5) h3 by simp
  have inv: "poolOk pool' (heap w4) \<and>
    (\<forall>j<0. poolObject pool' (heap w4) j = poolObject (renderViews c) (heap ?w3) j) \<and>
    (\<forall>j\<ge>0 + length (views f).
       poolObject pool' (heap w4) j = poolObject (renderViews c) (heap ?w3) j) \<and>
    (\<forall>k<length (views f).
       poolObject pool' (heap w4) (0 + k) = Some (renderViewOf p (baseLayer s) (views f ! k)))"
    by (rule renderViewsLoop_ok [OF ok3 _ loop]) simp
  have len: "length pool' = max (length (renderViews c)) (length (views f))"
    using renderViewsLoop_length [of 0 "views f" p "baseLayer s" "renderViews c" ?w3] loop
    by simp
  show ?thesis
    using run inv len h3
    by (simp add: completion_of_def controller_of_def world_of_def logCall_def)
qed

theorem onXRFrame_submits_whole_pool_witness:
  "session (controller_of demo_after_stereo) = Some demo_session \<and>
   gl (controller_of demo_after_stereo) = Some (GL 0) \<and>
   renderer (controller_of demo_after_stereo) = Some (Renderer 0) \<and>
   getDevicePose demo_frame_mono (frameOfRef (controller_of demo_after_stereo)) = Some demo_pose \<and>
   poolOk (renderViews (controller_of demo_after_stereo)) (heap (world_of demo_after_stereo)) \<and>
   length (renderViews (controller_of demo_after_stereo)) = 2 \<and>
   length (views demo_frame_mono) = 1 \<and>
   last (calls (world_of demo_after_mono)) =
     RendererFrame (Renderer 0) 0 (renderViews (controller_of demo_after_mono)) \<and>
   length (renderViews (controller_of demo_after_mono)) = 2 \<and>
   poolObject (renderViews (controller_of demo_after_mono)) (heap (world_of demo_after_mono)) 0 =
     Some (renderViewOf demo_pose demo_layer demo_left)"
proof -
  have c1: "controller_of demo_after_stereo = demo_controller\<lparr>renderViews := [Some 0, Some 1]\<rparr>"
    by (simp add: demo_after_stereo_def demo_controller_defs demo_stereo_defs run_defs Let_def)
  have h1: "heap (world_of demo_after_stereo) =
      [renderViewOf demo_pose demo_layer demo_left, renderViewOf demo_pose demo_layer demo_right]"
    by (simp add: demo_after_stereo_def demo_controller_defs demo_stereo_defs run_defs renderViewOf_def Let_def)
  have s: "session (controller_of demo_after_stereo) = Some demo_session"
    and g: "gl (controller_of demo_after_stereo) = Some (GL 0)"
    and r: "renderer (controller_of demo_after_stereo) = Some (Renderer 0)"
    and p: "getDevicePose demo_frame_mono (frameOfRef (controller_of demo_after_stereo)) =
        Some demo_pose"
    by (simp_all add: c1) (simp_all add: demo_controller_defs demo_frame_mono_def)
  have ok: "poolOk (renderViews (controller_of demo_after_stereo))
      (heap (world_of demo_after_stereo))"
    by (simp add: c1 h1 poolOk_def validRef_def)
  have l: "length (renderViews (controller_of demo_after_stereo)) = 2"
    by (simp add: c1)
  have n: "length (views demo_frame_mono) = 1" "views demo_frame_mono ! 0 = demo_left"
    by (simp_all add: demo_frame_mono_def)
  have b: "baseLayer demo_session = demo_layer"
    by (simp add: demo_session_def)
  show ?thesis
    using s g r p ok l n b
      onXRFrame_submits_whole_pool [OF s g r p ok, of 16]
    by (simp add: demo_after_mono_def)
qed

subsection \<open>C4: the pool\<close>

text \<open>
  Claim C4 says that for every sequence of frame callbacks the pool is at least as
  long as the number of views of the current frame. The pool grows only inside the
  branch taken when the pose resolves: the first frame of a stereo session for which
  tracking is not yet available reports two views and leaves the constructor's pool of
  one slot.
\<close>

theorem onXRFrame_pool_shorter_than_views:
  "completion_of (onXRFrame demo_controller demo_world 0 demo_frame_lost) = Returned \<and>
   length (views demo_frame_lost) = 2 \<and>
   length (renderViews (controller_of (onXRFrame demo_controller demo_world 0 demo_frame_lost))) = 1 \<and>
   \<not> length (views demo_frame_lost) \<le>
       length (renderViews (controller_of (onXRFrame demo_controller demo_world 0 demo_frame_lost)))"
  by (simp add: demo_controller_defs demo_frame_lost_def run_defs Let_def)

text \<open>
  Claim C4, amended. Over every sequence of frame callbacks the pool never gets shorter
  and every slot keeps the object it refers to (a slot is filled once and then written
  in place); and after every frame of a running session whose pose resolves, the pool
  is at least as long as the number of views of that frame.
\<close>

theorem onXRFrames_pool_grows_in_place:
  assumes "session c = Some s" and "gl c = Some g"
    and "getDevicePose f (frameOfRef c) = Some p"
  shows "length (renderViews c) \<le> length (renderViews (fst (onXRFrames c w fs))) \<and>
     length (renderViews (fst (onXRFrames c w fs))) \<le>
       length (renderViews (fst (onXRFrames c w (fs @ [(t, f)])))) \<and>
     length (views f) \<le> length (renderViews (fst (onXRFrames c w (fs @ [(t, f)])))) \<and>
     (\<forall>j a. js_index (renderViews c) j = Some a \<longrightarrow>
        js_index (renderViews (fst (onXRFrames c w (fs @ [(t, f)])))) j = Some a)"
proof -
  let ?c1 = "fst (onXRFrames c w fs)"
  let ?w1 = "snd (onXRFrames c w fs)"
  have app: "onXRFrames c w (fs @ [(t, f)]) =
      (controller_of (onXRFrame ?c1 ?w1 t f), world_of (onXRFrame ?c1 ?w1 t f))"
    by (rule onXRFrames_snoc)
  have flds: "session ?c1 = Some s" "gl ?c1 = Some g"
    "getDevicePose f (frameOfRef ?c1) = Some p"
    using onXRFrames_fields [of c w fs] assms by simp_all
  have a: "length (renderViews c) \<le> length (renderViews ?c1)"
    by (rule onXRFrames_pool_length)
  have b: "length (renderViews ?c1) \<le> length (renderViews (controller_of (onXRFrame ?c1 ?w1 t f)))"
    by (rule onXRFrame_pool_length)
  have n: "length (views f) \<le> length (renderViews (controller_of (onXRFrame ?c1 ?w1 t f)))"
    using onXRFrame_pool_covers [OF flds, of ?w1 t] by simp
  have k: "\<forall>j a. js_index (renderViews c) j = Some a \<longrightarrow>
        js_index (renderViews (fst (onXRFrames c w (fs @ [(t, f)])))) j = Some a"
    using onXRFrames_pool_keeps by blast
  show ?thesis using a b n k by (simp add: app)
qed

theorem onXRFrames_pool_grows_in_place_witness:
  "session demo_controller = Some demo_session \<and>
   gl demo_controller = Some (GL 0) \<and>
   getDevicePose demo_frame_stereo (frameOfRef demo_controller) = Some demo_pose \<and>
   length (renderViews demo_controller) = 1 \<and>
   js_index (renderViews demo_controller) 0 = Some 0 \<and>
   length (views demo_frame_stereo) = 2 \<and>
   2 \<le> length (renderViews (fst (onXRFrames demo_controller demo_world
          ([(0, demo_frame_lost), (16, demo_frame_mono)] @ [(32, demo_frame_stereo)])))) \<and>
   js_index (renderViews (fst (onXRFrames demo_controller demo_world
          ([(0, demo_frame_lost), (16, demo_frame_mono)] @ [(32, demo_frame_stereo)])))) 0 = Some 0"
proof -
  have s: "session demo_controller = Some demo_session"
    and g: "gl demo_controller = Some (GL 0)"
    and p: "getDevicePose demo_frame_stereo (frameOfRef demo_controller) = Some demo_pose"
    by (simp_all add: demo_controller_defs demo_stereo_defs)
  have l: "length (renderViews demo_controller) = 1"
    and j: "js_index (renderViews demo_controller) 0 = Some 0"
    and n: "length (views demo_frame_stereo) = 2"
    by (simp_all add: demo_controller_defs demo_frame_stereo_def js_index_def)
  show ?thesis
    using s g p l j n
      onXRFrames_pool_grows_in_place [OF s g p, of demo_world
        "[(0, demo_frame_lost), (16, demo_frame_mono)]" 32]
    by simp
qed

subsection \<open>C2: ending a session twice\<close>

text \<open>
  Claim C2 says that \<^verbatim>\<open>endSession\<close> on a controller whose session has ended produces no
  error. The source calls \<^verbatim>\<open>this.session!.end()\<close> with no guard: once \<^verbatim>\<open>onEndSession\<close> has
  cleared the field, the call throws a TypeError.
\<close>

theorem endSession_after_end_throws:
  "session (controller_of (onEndSession demo_controller demo_world)) = None \<and>
   completion_of (endSession (controller_of (onEndSession demo_controller demo_world))
       (world_of (onEndSession demo_controller demo_world))) \<noteq> Returned \<and>
   endSession (controller_of (onEndSession demo_controller demo_world))
       (world_of (onEndSession demo_controller demo_world)) =
     (Threw TypeError, controller_of (onEndSession demo_controller demo_world),
      world_of (onEndSession demo_controller demo_world))"
  by (simp add: onEndSession_def endSession_def completion_of_def controller_of_def world_of_def)

text \<open>
  Claim C2, amended. \<^verbatim>\<open>endSession\<close> on a controller whose session has ended changes no
  state and fails with a TypeError; with a session it completes as the session's
  \<^verbatim>\<open>end()\<close> settles, a rejection included, and writes no field of the controller itself.
  The teardown action \<^verbatim>\<open>onEndSession\<close>, run when the session's end event is dispatched,
  never fails, always reaches the cleared state and is idempotent.
\<close>

theorem endSession_and_teardown:
  "endSession (controller_of (onEndSession c w)) w' =
     (Threw TypeError, controller_of (onEndSession c w), w') \<and>
   completion_of (endSession (c\<lparr>session := Some s\<rparr>) w) =
     (case session_end s of Fulfilled u \<Rightarrow> Returned | Rejected e \<Rightarrow> Threw e) \<and>
   controller_of (endSession c w) = c \<and>
   completion_of (onEndSession c w) = Returned \<and>
   session (controller_of (onEndSession c w)) = None \<and>
   canvas (controller_of (onEndSession c w)) = None \<and>
   gl (controller_of (onEndSession c w)) = None \<and>
   frameOfRef (controller_of (onEndSession c w)) = None \<and>
   onEndSession (controller_of (onEndSession c w)) (world_of (onEndSession c w)) =
     onEndSession c w"
  by (simp add: onEndSession_def endSession_def completion_of_def controller_of_def world_of_def
      split: option.splits settled.splits)

subsection \<open>C3: what teardown clears\<close>

text \<open>
  Claim C3 counts the per-frame callback registration among what teardown clears.
  \<^verbatim>\<open>onEndSession\<close> assigns four fields and calls nothing: the callback that the last frame
  registered with the session is still registered when it returns.
\<close>

theorem onEndSession_keeps_registration:
  "frameCallbacks (world_of demo_after_stereo) = [(1, OnXRFrameCallback)] \<and>
   session (controller_of (onEndSession (controller_of demo_after_stereo)
       (world_of demo_after_stereo))) = None \<and>
   frameCallbacks (world_of (onEndSession (controller_of demo_after_stereo)
       (world_of demo_after_stereo))) = [(1, OnXRFrameCallback)] \<and>
   frameCallbacks (world_of (onEndSession (controller_of demo_after_stereo)
       (world_of demo_after_stereo))) \<noteq> []"
  by (simp add: demo_after_stereo_def demo_controller_defs demo_stereo_defs run_defs onEndSession_def Let_def)

text \<open>
  Claim C3, amended. After \<^verbatim>\<open>onEndSession\<close>, the teardown of both paths, the session, the
  canvas, the graphics handle and the frame of reference are undefined; the device
  handle and every other field of the controller are as before; and nothing outside
  the controller is touched: the teardown does not cancel the frame callback.
\<close>

theorem onEndSession_clears_session_fields:
  "completion_of (onEndSession c w) = Returned \<and>
   session (controller_of (onEndSession c w)) = None \<and>
   canvas (controller_of (onEndSession c w)) = None \<and>
   gl (controller_of (onEndSession c w)) = None \<and>
   frameOfRef (controller_of (onEndSession c w)) = None \<and>
   device (controller_of (onEndSession c w)) = device c \<and>
   sessionCreationOptions (controller_of (onEndSession c w)) = sessionCreationOptions c \<and>
   renderViews (controller_of (onEndSession c w)) = renderViews c \<and>
   renderer (controller_of (onEndSession c w)) = renderer c \<and>
   block_flag (controller_of (onEndSession c w)) = block_flag c \<and>
   world_of (onEndSession c w) = w"
  by (simp add: onEndSession_def completion_of_def controller_of_def world_of_def)

end
